theory Spec2Isabelle
  imports Main
begin

section \<open>Events and the persisted calendar document\<close>

text \<open>
  An event is the dictionary built in \<^verbatim>\<open>fetch_calendar_events\<close> and written by
  \<^verbatim>\<open>save_calendar_data\<close>: eleven keys, always present. The key \<^verbatim>\<open>id\<close> is the field
  \<open>id_e\<close> (\<open>id\<close> is the identity function of HOL). Strings are lists of characters
  with codes below 256; \<^verbatim>\<open>None\<close> is \<open>None\<close>.
\<close>

record event =
  id_e :: string
  date :: string
  time :: string
  name :: string
  impact :: string
  forecast :: "string option"
  actual :: "string option"
  previous :: "string option"
  status :: string
  notification_sent_12h :: bool
  notification_sent_release :: bool

text \<open>The document of \<^verbatim>\<open>calendar_data.json\<close>: \<^verbatim>\<open>{"updated_at": ..., "events": [...]}\<close>.\<close>

record calendar_data =
  updated_at :: "string option"
  events :: "event list"

text \<open>Python truth value of an optional string: \<^verbatim>\<open>None\<close> and \<^verbatim>\<open>''\<close> are false.\<close>

definition truthy :: "string option \<Rightarrow> bool" where
  "truthy v = (case v of None \<Rightarrow> False | Some s \<Rightarrow> s \<noteq> [])"

section \<open>merge_with_existing\<close>

text \<open>
  \<^verbatim>\<open>old_events_map = {event['id']: event for event in old_data.get('events', [])}\<close>:
  the dictionary is filled from left to right, so a later entry with the same id replaces
  an earlier one.
\<close>

definition old_events_map :: "event list \<Rightarrow> (string \<rightharpoonup> event)" where
  "old_events_map old_events = foldl (\<lambda>m ev. m(id_e ev \<mapsto> ev)) Map.empty old_events"

text \<open>
  The body of the loop over \<^verbatim>\<open>new_events\<close>. The defaults of
  \<^verbatim>\<open>old_event.get('notification_sent_12h', False)\<close> are for a missing key, which an entry
  of type \<open>event\<close> never has.
\<close>

definition merge_event :: "(string \<rightharpoonup> event) \<Rightarrow> event \<Rightarrow> event" where
  "merge_event m new_event =
     (case m (id_e new_event) of
        None \<Rightarrow> new_event
      | Some old_event \<Rightarrow>
          (let e1 = new_event\<lparr>notification_sent_12h := notification_sent_12h old_event\<rparr>;
               e2 = e1\<lparr>notification_sent_release := notification_sent_release old_event\<rparr>
           in if truthy (actual e2) \<and> \<not> truthy (actual old_event)
              then e2\<lparr>status := ''completed''\<rparr> else e2))"

fun merge_loop :: "(string \<rightharpoonup> event) \<Rightarrow> event list \<Rightarrow> event list \<Rightarrow> event list" where
  "merge_loop m [] merged_events = merged_events"
| "merge_loop m (new_event # rest) merged_events =
     merge_loop m rest (merged_events @ [merge_event m new_event])"

definition merge_with_existing :: "event list \<Rightarrow> calendar_data \<Rightarrow> event list" where
  "merge_with_existing new_events old_data =
     merge_loop (old_events_map (events old_data)) new_events []"

text \<open>The entries of a batch that carry a given id, in batch order.\<close>

definition with_id :: "string \<Rightarrow> event list \<Rightarrow> event list" where
  "with_id k batch = filter (\<lambda>ev. id_e ev = k) batch"

section \<open>Library functions\<close>

text \<open>
  The Python library functions the program calls are parameters of the model, so every
  theorem holds for whatever they compute. A \<^verbatim>\<open>datetime\<close> is the number of microseconds
  since a fixed origin on the naive local time line (the resolution of \<^verbatim>\<open>datetime\<close>).
  \<^item> \<open>md5_hexdigest s\<close> is \<^verbatim>\<open>hashlib.md5(s.encode()).hexdigest()\<close>;
  \<^item> \<open>strptime s fmt\<close> is \<^verbatim>\<open>datetime.strptime(s, fmt)\<close>, \<open>None\<close> for \<^verbatim>\<open>ValueError\<close>;
  \<^item> \<open>strftime t fmt\<close> is \<^verbatim>\<open>t.strftime(fmt)\<close>.
\<close>

record pylib =
  md5_hexdigest :: "string \<Rightarrow> string"
  strptime :: "string \<Rightarrow> string \<Rightarrow> int option"
  strftime :: "int \<Rightarrow> string \<Rightarrow> string"

text \<open>The fields of \<^verbatim>\<open>EconomicCalendarFetcher\<close> set by \<^verbatim>\<open>__init__\<close>.\<close>

record fetcher =
  telegram_bot_token :: string
  telegram_chat_id :: string

definition microseconds_per_hour :: int where
  "microseconds_per_hour = 3600 * 1000000"

definition timedelta_days :: "int \<Rightarrow> int" where
  "timedelta_days n = n * 24 * microseconds_per_hour"

section \<open>generate_event_id\<close>

definition generate_event_id :: "fetcher \<Rightarrow> pylib \<Rightarrow> string \<Rightarrow> string \<Rightarrow> string" where
  "generate_event_id self lib date_arg name_arg =
     (let unique_str = date_arg @ ''_'' @ name_arg
      in take 16 (md5_hexdigest lib unique_str))"

section \<open>fetch_calendar_events\<close>

text \<open>
  What the loop over \<^verbatim>\<open>event_rows\<close> reads from one \<^verbatim>\<open>tr.js-event-item\<close>: the attribute
  \<^verbatim>\<open>data-event-datetime\<close> (\<^verbatim>\<open>''\<close> when absent) and, for each cell, \<open>None\<close> when
  \<^verbatim>\<open>row.find\<close> finds no such \<^verbatim>\<open>td\<close>, else its \<^verbatim>\<open>get_text(strip=True)\<close> (for the
  \<^verbatim>\<open>sentiment\<close> cell its attribute \<^verbatim>\<open>data-img_key\<close>, \<^verbatim>\<open>''\<close> when absent).
\<close>

record raw_row =
  data_event_datetime :: string
  flagCur :: "string option"
  sentiment :: "string option"
  event_cell :: "string option"
  time_cell :: "string option"
  fore :: "string option"
  act :: "string option"
  prev :: "string option"

text \<open>
  The answer of the provider: the request or the parsing of the page raised (the outer
  \<^verbatim>\<open>except\<close>), the AJAX envelope had no \<^verbatim>\<open>data\<close>, or a page with its event rows.
\<close>

datatype response = RequestFailed | NoData | Page "raw_row list"

text \<open>\<^verbatim>\<open>str.isspace\<close> on the characters below 256, \<^verbatim>\<open>str.split()\<close> and \<^verbatim>\<open>sep.join\<close>.\<close>

definition isspace :: "char \<Rightarrow> bool" where
  "isspace c = ((of_char c :: nat) \<in> {9, 10, 11, 12, 13, 28, 29, 30, 31, 32, 133, 160})"

fun split_from :: "string \<Rightarrow> string \<Rightarrow> string list" where
  "split_from cur [] = (if cur = [] then [] else [cur])"
| "split_from cur (c # cs) =
     (if isspace c then (if cur = [] then split_from [] cs else cur # split_from [] cs)
      else split_from (cur @ [c]) cs)"

definition split_py :: "string \<Rightarrow> string list" where
  "split_py s = split_from [] s"

fun join_py :: "string \<Rightarrow> string list \<Rightarrow> string" where
  "join_py sep [] = []"
| "join_py sep [w] = w"
| "join_py sep (w # ws) = w @ sep @ join_py sep ws"

text \<open>\<^verbatim>\<open>if v == '' or v == '\xa0': v = None\<close>, on the text of an optional cell.\<close>

definition blank_to_none :: "string option \<Rightarrow> string option" where
  "blank_to_none v =
     (case v of None \<Rightarrow> None
      | Some s \<Rightarrow> if s = [] \<or> s = [char_of (160 :: nat)] then None else Some s)"

text \<open>One iteration of the loop over the rows: \<open>None\<close> is \<^verbatim>\<open>continue\<close>.\<close>

definition normalize_row :: "fetcher \<Rightarrow> pylib \<Rightarrow> int \<Rightarrow> int \<Rightarrow> raw_row \<Rightarrow> event option" where
  "normalize_row self lib start_date end_date row =
     (let event_datetime_str = data_event_datetime row in
      if event_datetime_str = [] then None
      else case strptime lib event_datetime_str ''%Y/%m/%d %H:%M:%S'' of
        None \<Rightarrow> None
      | Some event_datetime \<Rightarrow>
          if event_datetime < start_date \<or> event_datetime > end_date then None
          else case flagCur row of
            None \<Rightarrow> None
          | Some currency \<Rightarrow>
              if currency \<noteq> ''USD'' then None
              else case sentiment row of
                None \<Rightarrow> None
              | Some img_key \<Rightarrow>
                  if img_key \<notin> set [''bull2'', ''bull3''] then None
                  else
                    let impact_v = (if img_key = ''bull3'' then ''High'' else ''Medium'');
                        name0 = (case event_cell row of Some t \<Rightarrow> t | None \<Rightarrow> ''Unknown Event'');
                        name_v = join_py '' '' (split_py name0);
                        event_time = (case time_cell row of Some t \<Rightarrow> t
                                      | None \<Rightarrow> strftime lib event_datetime ''%H:%M'');
                        forecast_v = blank_to_none (fore row);
                        actual_v = blank_to_none (act row);
                        previous_v = blank_to_none (prev row);
                        status_v = (if truthy actual_v then ''completed'' else ''upcoming'');
                        event_date = strftime lib event_datetime ''%Y-%m-%d''
                    in Some \<lparr>id_e = generate_event_id self lib event_date name_v,
                             date = event_date,
                             time = event_time,
                             name = name_v,
                             impact = impact_v,
                             forecast = forecast_v,
                             actual = actual_v,
                             previous = previous_v,
                             status = status_v,
                             notification_sent_12h = False,
                             notification_sent_release = False\<rparr>)"

fun fetch_loop :: "fetcher \<Rightarrow> pylib \<Rightarrow> int \<Rightarrow> int \<Rightarrow> raw_row list \<Rightarrow> event list \<Rightarrow> event list" where
  "fetch_loop self lib start_date end_date [] events_acc = events_acc"
| "fetch_loop self lib start_date end_date (row # rows) events_acc =
     (case normalize_row self lib start_date end_date row of
        None \<Rightarrow> fetch_loop self lib start_date end_date rows events_acc
      | Some ev \<Rightarrow> fetch_loop self lib start_date end_date rows (events_acc @ [ev]))"

text \<open>\<open>start_date\<close> is the \<^verbatim>\<open>datetime.now()\<close> read at the start of the fetch.\<close>

definition fetch_calendar_events :: "fetcher \<Rightarrow> pylib \<Rightarrow> int \<Rightarrow> response \<Rightarrow> event list" where
  "fetch_calendar_events self lib start_date resp =
     (let end_date = start_date + timedelta_days 28
      in case resp of
           RequestFailed \<Rightarrow> []
         | NoData \<Rightarrow> []
         | Page event_rows \<Rightarrow> fetch_loop self lib start_date end_date event_rows [])"

section \<open>Notifications\<close>

text \<open>
  \<^verbatim>\<open>send_telegram_notification\<close>: without credentials nothing is posted and the result is
  \<^verbatim>\<open>False\<close>; otherwise the result is whether the \<open>k\<close>-th \<^verbatim>\<open>requests.post\<close> of the run
  went through (\<open>sink k\<close>), and one more post has been made.
\<close>

definition send_telegram_notification :: "fetcher \<Rightarrow> (nat \<Rightarrow> bool) \<Rightarrow> nat \<Rightarrow> bool \<times> nat" where
  "send_telegram_notification self sink k =
     (if telegram_bot_token self = [] \<or> telegram_chat_id self = [] then (False, k)
      else (sink k, Suc k))"

text \<open>
  The trace of a run: one entry for every call of \<^verbatim>\<open>send_telegram_notification\<close>, with
  the trigger that made it, the position of the event in the batch, the event as it was
  handed to the message formatter, and the result of the call.
\<close>

datatype trigger = TriggerA | TriggerB

record attempt =
  trigger :: trigger
  slot :: nat
  subject :: event
  delivered :: bool

text \<open>
  The body of the loop of \<^verbatim>\<open>check_and_send_notifications\<close>. \<^verbatim>\<open>hours_until\<close> is
  \<^verbatim>\<open>time_until_event.total_seconds() / 3600\<close>; the test \<^verbatim>\<open>0 <= hours_until <= 12\<close> on
  that float holds exactly when the difference in microseconds is between 0 and twelve
  hours, which is what the model tests. A date and time that do not parse raise
  \<^verbatim>\<open>ValueError\<close>: the \<^verbatim>\<open>except\<close> branch appends the event as it is.
\<close>

definition notify_event ::
  "fetcher \<Rightarrow> pylib \<Rightarrow> int \<Rightarrow> (nat \<Rightarrow> bool) \<Rightarrow> nat \<Rightarrow> event \<Rightarrow> nat \<Rightarrow> event \<times> attempt list \<times> nat" where
  "notify_event self lib now sink i ev k =
     (let event_datetime_str = date ev @ '' '' @ time ev in
      case strptime lib event_datetime_str ''%Y-%m-%d %H:%M'' of
        None \<Rightarrow> (ev, [], k)
      | Some event_datetime \<Rightarrow>
          (let time_until_event = event_datetime - now;
               (ev1, log1, k1) =
                 (if 0 \<le> time_until_event \<and> time_until_event \<le> 12 * microseconds_per_hour
                     \<and> \<not> notification_sent_12h ev \<and> impact ev = ''High''
                  then (let (ok, k') = send_telegram_notification self sink k
                        in (if ok then ev\<lparr>notification_sent_12h := True\<rparr> else ev,
                            [\<lparr>trigger = TriggerA, slot = i, subject = ev, delivered = ok\<rparr>], k'))
                  else (ev, [], k));
               (ev2, log2, k2) =
                 (if status ev1 = ''completed'' \<and> truthy (actual ev1)
                     \<and> \<not> notification_sent_release ev1 \<and> impact ev1 = ''High''
                  then (let (ok, k') = send_telegram_notification self sink k1
                        in (if ok then ev1\<lparr>notification_sent_release := True\<rparr> else ev1,
                            [\<lparr>trigger = TriggerB, slot = i, subject = ev1, delivered = ok\<rparr>], k'))
                  else (ev1, [], k1))
           in (ev2, log1 @ log2, k2)))"

fun check_loop ::
  "fetcher \<Rightarrow> pylib \<Rightarrow> int \<Rightarrow> (nat \<Rightarrow> bool) \<Rightarrow> event list \<Rightarrow> nat \<Rightarrow> event list \<Rightarrow> attempt list \<Rightarrow> nat
     \<Rightarrow> event list \<times> attempt list" where
  "check_loop self lib now sink [] i updated_events log k = (updated_events, log)"
| "check_loop self lib now sink (ev # rest) i updated_events log k =
     (let (ev', l, k') = notify_event self lib now sink i ev k
      in check_loop self lib now sink rest (Suc i) (updated_events @ [ev']) (log @ l) k')"

definition check_and_send_notifications ::
  "fetcher \<Rightarrow> pylib \<Rightarrow> int \<Rightarrow> (nat \<Rightarrow> bool) \<Rightarrow> event list \<Rightarrow> event list \<times> attempt list" where
  "check_and_send_notifications self lib now sink evs = check_loop self lib now sink evs 0 [] [] 0"

text \<open>
  The results of the iterations of that loop, one per event of the batch: the event as
  appended to \<^verbatim>\<open>updated_events\<close> and the calls of the sink made for it.
\<close>

fun steps_from ::
  "fetcher \<Rightarrow> pylib \<Rightarrow> int \<Rightarrow> (nat \<Rightarrow> bool) \<Rightarrow> event list \<Rightarrow> nat \<Rightarrow> nat \<Rightarrow> (event \<times> attempt list) list" where
  "steps_from self lib now sink [] i k = []"
| "steps_from self lib now sink (ev # rest) i k =
     (let (ev', l, k') = notify_event self lib now sink i ev k
      in (ev', l) # steps_from self lib now sink rest (Suc i) k')"

section \<open>The deviation of format_release_message\<close>

text \<open>\<^verbatim>\<open>s.replace(c, r)\<close> for a pattern of one character.\<close>

definition replace_py :: "char \<Rightarrow> string \<Rightarrow> string \<Rightarrow> string" where
  "replace_py c r s = concat (map (\<lambda>x. if x = c then r else [x]) s)"

text \<open>The text handed to \<^verbatim>\<open>float\<close>: \<^verbatim>\<open>v.replace('K', '000').replace('%', '')\<close>.\<close>

definition numeric_text :: "string \<Rightarrow> string" where
  "numeric_text v = replace_py (CHR ''%'') [] (replace_py (CHR ''K'') ''000'' v)"

text \<open>
  The two numbers the deviation is computed from, or \<open>None\<close> when \<^verbatim>\<open>deviation_text\<close> stays
  empty: a value is missing or empty, or \<^verbatim>\<open>float\<close> raises on one of them and the bare
  \<^verbatim>\<open>except\<close> passes. \<open>float_of\<close> is Python's \<^verbatim>\<open>float\<close> on strings, \<open>None\<close> for \<^verbatim>\<open>ValueError\<close>.
\<close>

definition deviation_operands :: "(string \<Rightarrow> 'f option) \<Rightarrow> event \<Rightarrow> ('f \<times> 'f) option" where
  "deviation_operands float_of ev =
     (case (forecast ev, actual ev) of
        (Some f, Some a) \<Rightarrow>
          if f \<noteq> [] \<and> a \<noteq> [] then
            (case float_of (numeric_text f) of
               None \<Rightarrow> None
             | Some forecast_val \<Rightarrow>
                 (case float_of (numeric_text a) of
                    None \<Rightarrow> None
                  | Some actual_val \<Rightarrow> Some (forecast_val, actual_val)))
          else None
      | _ \<Rightarrow> None)"

section \<open>Persistence and main\<close>

text \<open>
  The file \<^verbatim>\<open>calendar_data.json\<close>: absent, present but not readable as JSON, or holding
  a document.
\<close>

datatype file_state = Missing | Unreadable | Stored calendar_data

definition load_existing_data :: "file_state \<Rightarrow> calendar_data" where
  "load_existing_data file =
     (case file of
        Stored d \<Rightarrow> d
      | Missing \<Rightarrow> \<lparr>updated_at = None, events = []\<rparr>
      | Unreadable \<Rightarrow> \<lparr>updated_at = None, events = []\<rparr>)"

text \<open>
  What happens to the write: it goes through, \<^verbatim>\<open>open\<close> raises (the file stays as it
  was), or \<^verbatim>\<open>json.dump\<close> raises after \<^verbatim>\<open>open(filename, 'w')\<close> has truncated the file.
  \<open>stamp\<close> is \<^verbatim>\<open>datetime.utcnow().isoformat() + "Z"\<close>.
\<close>

datatype write_outcome = Written | OpenFailed | DumpFailed

definition save_calendar_data :: "event list \<Rightarrow> string \<Rightarrow> write_outcome \<Rightarrow> file_state \<Rightarrow> file_state" where
  "save_calendar_data evs stamp_v outcome file =
     (let output = \<lparr>updated_at = Some stamp_v, events = evs\<rparr>
      in case outcome of
           Written \<Rightarrow> Stored output
         | OpenFailed \<Rightarrow> file
         | DumpFailed \<Rightarrow> Unreadable)"

text \<open>What one run reads from its environment.\<close>

record run_input =
  fetch_now :: int
  provider :: response
  check_now :: int
  sink_of :: "nat \<Rightarrow> bool"
  stamp :: string
  write_result :: write_outcome

text \<open>\<^verbatim>\<open>main\<close>: the new state of the file and the trace of the run.\<close>

definition main :: "fetcher \<Rightarrow> pylib \<Rightarrow> run_input \<Rightarrow> file_state \<Rightarrow> file_state \<times> attempt list" where
  "main self lib inp file =
     (let old_data = load_existing_data file;
          new_events = fetch_calendar_events self lib (fetch_now inp) (provider inp)
      in if new_events = [] then (file, [])
         else
           (let merged_events = merge_with_existing new_events old_data;
                (updated_events, log) =
                   check_and_send_notifications self lib (check_now inp) (sink_of inp) merged_events
            in (save_calendar_data updated_events (stamp inp) (write_result inp) file, log)))"


text \<open>How often a trigger was fired for an id in a trace.\<close>

definition fired :: "trigger \<Rightarrow> string \<Rightarrow> attempt list \<Rightarrow> nat" where
  "fired tr k log = length (filter (\<lambda>a. trigger a = tr \<and> id_e (subject a) = k) log)"






section \<open>Scenario data\<close>

text \<open>
  The event of the scenario of the specification, a high-impact release scheduled for
  2025-01-10 21:30, as the fetch builds it: its id is the first sixteen digits of the MD5
  digest of \<^verbatim>\<open>2025-01-10_CPI m/m\<close>.
\<close>

definition cpi :: event where
  "cpi = \<lparr>id_e = ''92b6e3feb0b7dd77'', date = ''2025-01-10'', time = ''21:30'',
          name = ''CPI m/m'', impact = ''High'', forecast = Some ''0.3%'', actual = None,
          previous = Some ''0.2%'', status = ''upcoming'',
          notification_sent_12h = False, notification_sent_release = False\<rparr>"


text \<open>
  The values of the library functions at the strings of the scenarios; 2025-01-10 21:30
  is microsecond 1736544600000000 after 1970-01-01 00:00.
\<close>

definition table_lib :: pylib where
  "table_lib =
     \<lparr>md5_hexdigest = (\<lambda>s. if s = ''2025-01-10_CPI m/m''
                            then ''92b6e3feb0b7dd772dc523e55cef09fa''
                            else if s = ''2025-01-10_Nonfarm Payrolls''
                            then ''d5ca4df35858a32eb16a88b3b643bfa5'' else []),
      strptime = (\<lambda>s fmt.
         if (s = ''2025-01-10 21:30'' \<and> fmt = ''%Y-%m-%d %H:%M'')
            \<or> (s = ''2025/01/10 21:30:00'' \<and> fmt = ''%Y/%m/%d %H:%M:%S'')
         then Some 1736544600000000 else None),
      strftime = (\<lambda>t fmt.
         if t = 1736544600000000 \<and> fmt = ''%Y-%m-%d'' then ''2025-01-10''
         else if t = 1736544600000000 \<and> fmt = ''%H:%M'' then ''21:30'' else [])\<rparr>"


text \<open>A fetcher with credentials, and clock readings of that day from 15:30 to 19:30.\<close>

definition tg_bot :: fetcher where
  "tg_bot = \<lparr>telegram_bot_token = ''123:abc'', telegram_chat_id = ''42''\<rparr>"

definition at_1530 :: int where
  "at_1530 = 1736523000000000"






section \<open>Facts about the merge\<close>

lemma foldl_upd_lookup:
  "foldl (\<lambda>m ev. m(id_e ev \<mapsto> ev)) m0 es k =
     (if with_id k es = [] then m0 k else Some (last (with_id k es)))"
  by (induction es arbitrary: m0) (auto simp: with_id_def)

lemma old_events_map_lookup:
  "old_events_map es k = (if with_id k es = [] then None else Some (last (with_id k es)))"
  by (simp add: old_events_map_def foldl_upd_lookup)

lemma merge_loop_map: "merge_loop m new_events acc = acc @ map (merge_event m) new_events"
  by (induction new_events arbitrary: acc) auto

lemma merge_with_existing_map:
  "merge_with_existing new_events old_data =
     map (merge_event (old_events_map (events old_data))) new_events"
  by (simp add: merge_with_existing_def merge_loop_map)

lemma id_merge_event: "id_e (merge_event m ev) = id_e ev"
  by (simp add: merge_event_def Let_def split: option.splits)

lemma merge_nth:
  assumes "i < length new_events"
  shows "merge_with_existing new_events old_data ! i =
     (let n = new_events ! i; ps = with_id (id_e n) (events old_data)
      in if ps = [] then n
         else n\<lparr>notification_sent_12h := notification_sent_12h (last ps),
                notification_sent_release := notification_sent_release (last ps),
                status := (if truthy (actual n) \<and> \<not> truthy (actual (last ps))
                           then ''completed'' else status n)\<rparr>)"
  using assms
  by (simp add: merge_with_existing_map merge_event_def old_events_map_lookup Let_def)

text \<open>
  C2, as amended. When an id of the new batch occurs in the prior batch, the merged event
  at that position has both notification flags of the last prior entry with that id (the
  entry the lookup dictionary keeps), whatever the other fields of the new event are. So a
  flag that is true in that entry is true after the merge.
\<close>

theorem merge_carries_last_prior_flags:
  assumes "i < length new_events"
      and "with_id (id_e (new_events ! i)) (events old_data) \<noteq> []"
  shows "notification_sent_12h (merge_with_existing new_events old_data ! i)
           = notification_sent_12h (last (with_id (id_e (new_events ! i)) (events old_data)))
       \<and> notification_sent_release (merge_with_existing new_events old_data ! i)
           = notification_sent_release (last (with_id (id_e (new_events ! i)) (events old_data)))"
  using assms by (simp add: merge_nth Let_def)

theorem merge_carries_last_prior_flags_witness:
  "notification_sent_12h
     (merge_with_existing [cpi\<lparr>forecast := Some ''0.4%''\<rparr>]
        \<lparr>updated_at = None, events = [cpi\<lparr>notification_sent_12h := True\<rparr>]\<rparr> ! 0)"
  using merge_carries_last_prior_flags
          [of 0 "[cpi\<lparr>forecast := Some ''0.4%''\<rparr>]"
              "\<lparr>updated_at = None, events = [cpi\<lparr>notification_sent_12h := True\<rparr>]\<rparr>"]
  by (simp add: with_id_def)

text \<open>
  C2 as stated fails when the prior batch holds the id twice: the first entry has the
  12-hour flag set, the second has not, and the merge takes the flag of the second.
\<close>

theorem merge_flag_reset_counterexample:
  "notification_sent_12h ([cpi\<lparr>notification_sent_12h := True\<rparr>, cpi] ! 0)
   \<and> id_e ([cpi\<lparr>notification_sent_12h := True\<rparr>, cpi] ! 0) = id_e ([cpi] ! 0)
   \<and> \<not> notification_sent_12h
         (merge_with_existing [cpi]
            \<lparr>updated_at = None, events = [cpi\<lparr>notification_sent_12h := True\<rparr>, cpi]\<rparr> ! 0)"
  by (simp add: merge_with_existing_def old_events_map_def merge_event_def cpi_def truthy_def)

text \<open>
  C3, as amended. The status of a merged event is the status the new fetch supplies,
  except that it is forced to completed when the new event has an actual value and the
  last prior entry with its id has none; the status of the prior entry is never read. So
  the merge never takes a completed status of the new event away.
\<close>

theorem merge_status_rule:
  assumes "i < length new_events"
  shows "status (merge_with_existing new_events old_data ! i) =
           (if with_id (id_e (new_events ! i)) (events old_data) \<noteq> []
               \<and> truthy (actual (new_events ! i))
               \<and> \<not> truthy (actual (last (with_id (id_e (new_events ! i)) (events old_data))))
            then ''completed'' else status (new_events ! i))
       \<and> (status (new_events ! i) = ''completed''
            \<longrightarrow> status (merge_with_existing new_events old_data ! i) = ''completed'')"
  using assms by (simp add: merge_nth Let_def)

theorem merge_status_rule_witness:
  "status (merge_with_existing [cpi\<lparr>actual := Some ''0.4%'', status := ''completed''\<rparr>]
             \<lparr>updated_at = None, events = [cpi]\<rparr> ! 0) = ''completed''"
  using merge_status_rule
          [of 0 "[cpi\<lparr>actual := Some ''0.4%'', status := ''completed''\<rparr>]"
              "\<lparr>updated_at = None, events = [cpi]\<rparr>"]
  by simp

text \<open>
  C3 as stated fails: the prior entry is completed, the new fetch of the same id has no
  actual value and is upcoming, and the merged event is upcoming.
\<close>

theorem merge_status_regress_counterexample:
  "status ([cpi\<lparr>actual := Some ''0.4%'', status := ''completed''\<rparr>] ! 0) = ''completed''
   \<and> id_e ([cpi\<lparr>actual := Some ''0.4%'', status := ''completed''\<rparr>] ! 0) = id_e ([cpi] ! 0)
   \<and> status (merge_with_existing [cpi]
         \<lparr>updated_at = None,
          events = [cpi\<lparr>actual := Some ''0.4%'', status := ''completed''\<rparr>]\<rparr> ! 0) = ''upcoming''"
  by (simp add: merge_with_existing_def old_events_map_def merge_event_def cpi_def truthy_def)

text \<open>
  C4. The merged list has the length and the ids of the new list, in its order. The
  event at each position is the new event: unchanged when the prior batch does not have
  its id, and otherwise with the two flags of the prior entry (the last one with that id)
  and the status forced to completed when the new event has an actual value and the prior
  entry has none. An id that only the prior batch has is not in the merged list.
\<close>

theorem merge_is_new_batch_enriched:
  "length (merge_with_existing new_events old_data) = length new_events
   \<and> map id_e (merge_with_existing new_events old_data) = map id_e new_events
   \<and> (\<forall>i < length new_events.
        merge_with_existing new_events old_data ! i =
          (let n = new_events ! i; ps = with_id (id_e n) (events old_data)
           in if ps = [] then n
              else n\<lparr>notification_sent_12h := notification_sent_12h (last ps),
                     notification_sent_release := notification_sent_release (last ps),
                     status := (if truthy (actual n) \<and> \<not> truthy (actual (last ps))
                                then ''completed'' else status n)\<rparr>))
   \<and> (\<forall>old \<in> set (events old_data).
        id_e old \<notin> id_e ` set new_events
          \<longrightarrow> id_e old \<notin> id_e ` set (merge_with_existing new_events old_data))"
proof -
  have ids: "map id_e (merge_with_existing new_events old_data) = map id_e new_events"
    by (simp add: merge_with_existing_map id_merge_event)
  have len: "length (merge_with_existing new_events old_data) = length new_events"
    by (simp add: merge_with_existing_map)
  have "id_e ` set (merge_with_existing new_events old_data) = id_e ` set new_events"
    using ids by (metis set_map)
  with ids len merge_nth show ?thesis by simp
qed

theorem merge_is_new_batch_enriched_witness:
  "merge_with_existing [cpi\<lparr>actual := Some ''0.4%''\<rparr>]
     \<lparr>updated_at = None,
      events = [cpi\<lparr>notification_sent_12h := True\<rparr>,
                cpi\<lparr>id_e := ''d5ca4df35858a32e'', name := ''Nonfarm Payrolls''\<rparr>]\<rparr> ! 0
   = cpi\<lparr>actual := Some ''0.4%'', notification_sent_12h := True, status := ''completed''\<rparr>
   \<and> ''d5ca4df35858a32e'' \<notin> id_e ` set (merge_with_existing [cpi\<lparr>actual := Some ''0.4%''\<rparr>]
     \<lparr>updated_at = None,
      events = [cpi\<lparr>notification_sent_12h := True\<rparr>,
                cpi\<lparr>id_e := ''d5ca4df35858a32e'', name := ''Nonfarm Payrolls''\<rparr>]\<rparr>)"
  using merge_is_new_batch_enriched
          [of "[cpi\<lparr>actual := Some ''0.4%''\<rparr>]"
              "\<lparr>updated_at = None,
                events = [cpi\<lparr>notification_sent_12h := True\<rparr>,
                          cpi\<lparr>id_e := ''d5ca4df35858a32e'', name := ''Nonfarm Payrolls''\<rparr>]\<rparr>"]
  by (simp add: with_id_def cpi_def truthy_def)

section \<open>Facts about the notification evaluator\<close>

lemma notify_event_unparsed:
  "strptime lib (date ev @ '' '' @ time ev) ''%Y-%m-%d %H:%M'' = None
   \<Longrightarrow> notify_event self lib now sink i ev k = (ev, [], k)"
  by (simp add: notify_event_def)

lemma notify_event_slot:
  "notify_event self lib now sink i ev k = (ev', l, k') \<Longrightarrow> a \<in> set l \<Longrightarrow> slot a = i"
  by (auto simp: notify_event_def Let_def split: option.splits if_splits prod.splits)

lemma notify_event_A_iff:
  "notify_event self lib now sink i ev k = (ev', l, k') \<Longrightarrow>
   strptime lib (date ev @ '' '' @ time ev) ''%Y-%m-%d %H:%M'' = Some t \<Longrightarrow>
   (\<exists>a\<in>set l. trigger a = TriggerA) \<longleftrightarrow>
     (0 \<le> t - now \<and> t - now \<le> 12 * microseconds_per_hour \<and> \<not> notification_sent_12h ev \<and> impact ev = ''High'')"
  by (auto simp: notify_event_def Let_def split: option.splits if_splits prod.splits)

lemma notify_event_A_flag:
  "notify_event self lib now sink i ev k = (ev', l, k') \<Longrightarrow> a \<in> set l \<Longrightarrow> trigger a = TriggerA
   \<Longrightarrow> notification_sent_12h ev' = delivered a"
  by (auto simp: notify_event_def Let_def split: option.splits if_splits prod.splits)

lemma notify_event_no_A_flag:
  "notify_event self lib now sink i ev k = (ev', l, k') \<Longrightarrow> \<forall>a\<in>set l. trigger a \<noteq> TriggerA
   \<Longrightarrow> notification_sent_12h ev' = notification_sent_12h ev"
  by (auto simp: notify_event_def Let_def split: option.splits if_splits prod.splits)


lemma check_loop_steps:
  "check_loop self lib now sink evs i upd log k =
     (upd @ map fst (steps_from self lib now sink evs i k),
      log @ concat (map snd (steps_from self lib now sink evs i k)))"
  by (induction evs arbitrary: i upd log k) (auto split: prod.splits)

lemma check_and_send_steps:
  "check_and_send_notifications self lib now sink evs =
     (map fst (steps_from self lib now sink evs 0 0),
      concat (map snd (steps_from self lib now sink evs 0 0)))"
  by (simp add: check_and_send_notifications_def check_loop_steps)

lemma steps_from_length: "length (steps_from self lib now sink evs i k) = length evs"
  by (induction evs arbitrary: i k) (auto split: prod.splits)

lemma steps_from_nth:
  "j < length evs \<Longrightarrow>
   \<exists>kj kj'. notify_event self lib now sink (i + j) (evs ! j) kj =
      (fst (steps_from self lib now sink evs i k ! j),
       snd (steps_from self lib now sink evs i k ! j), kj')"
proof (induction evs arbitrary: i j k)
  case Nil
  then show ?case by simp
next
  case (Cons ev rest)
  obtain ev' l k' where step: "notify_event self lib now sink i ev k = (ev', l, k')"
    by (cases "notify_event self lib now sink i ev k") auto
  show ?case
  proof (cases j)
    case 0
    with step show ?thesis by auto
  next
    case (Suc j')
    with Cons.prems have "j' < length rest" by simp
    from Cons.IH [OF this, of "Suc i" k'] Suc step show ?thesis by auto
  qed
qed

lemma log_slot_mem:
  assumes "a \<in> set (concat (map snd (steps_from self lib now sink evs 0 k)))"
  shows "slot a < length evs \<and> a \<in> set (snd (steps_from self lib now sink evs 0 k ! slot a))"
proof -
  let ?st = "steps_from self lib now sink evs 0 k"
  from assms obtain p where "p \<in> set ?st" "a \<in> set (snd p)" by auto
  then obtain j where j: "j < length ?st" "?st ! j = p" by (auto simp: in_set_conv_nth)
  then have jl: "j < length evs" by (simp add: steps_from_length)
  from steps_from_nth [OF jl, of self lib now sink 0 k] obtain kj kj' where
    "notify_event self lib now sink j (evs ! j) kj = (fst (?st ! j), snd (?st ! j), kj')" by auto
  from notify_event_slot [OF this] j \<open>a \<in> set (snd p)\<close> have "slot a = j" by simp
  with jl j \<open>a \<in> set (snd p)\<close> show ?thesis by simp
qed

lemma step_mem_log:
  "j < length evs \<Longrightarrow> a \<in> set (snd (steps_from self lib now sink evs 0 k ! j))
   \<Longrightarrow> a \<in> set (concat (map snd (steps_from self lib now sink evs 0 k)))"
  by (auto simp: steps_from_length intro!: bexI [of _ "steps_from self lib now sink evs 0 k ! j"])

lemma notify_event_posts:
  assumes "notify_event self lib now sink i ev k = (ev', l, k')"
  shows "k' = (if telegram_bot_token self \<noteq> [] \<and> telegram_chat_id self \<noteq> [] then k + length l else k)
       \<and> (\<forall>p<length l. delivered (l ! p) =
              (telegram_bot_token self \<noteq> [] \<and> telegram_chat_id self \<noteq> [] \<and> sink (k + p)))"
  using assms
  by (auto simp: notify_event_def send_telegram_notification_def Let_def nth_Cons' less_Suc_eq
      split: option.splits if_splits prod.splits)

lemma steps_posts:
  "p < length (concat (map snd (steps_from self lib now sink evs i k))) \<Longrightarrow>
   delivered (concat (map snd (steps_from self lib now sink evs i k)) ! p) =
     (telegram_bot_token self \<noteq> [] \<and> telegram_chat_id self \<noteq> [] \<and> sink (k + p))"
proof (induction evs arbitrary: i k p)
  case Nil
  then show ?case by simp
next
  case (Cons ev rest)
  obtain ev' l k' where step: "notify_event self lib now sink i ev k = (ev', l, k')"
    by (cases "notify_event self lib now sink i ev k") auto
  let ?rest = "concat (map snd (steps_from self lib now sink rest (Suc i) k'))"
  have log: "concat (map snd (steps_from self lib now sink (ev # rest) i k)) = l @ ?rest"
    using step by simp
  note posts = notify_event_posts [OF step]
  show ?case
  proof (cases "p < length l")
    case True
    with posts show ?thesis unfolding log by (simp add: nth_append)
  next
    case False
    with Cons.prems have "p - length l < length ?rest" unfolding log by simp
    from Cons.IH [OF this] False posts show ?thesis
      unfolding log by (auto simp: nth_append)
  qed
qed

text \<open>
  C5. In one evaluation run at clock reading \<open>now\<close>, for the event at any position
  whose date and time parse: the sink is called for Trigger A exactly when the impact is
  High, the 12-hour flag is false and the event is between 0 and 12 hours ahead. The
  \<open>n\<close>-th call of the run returns what \<^verbatim>\<open>send_telegram_notification\<close> returns for it, true
  exactly when the credentials are set and the \<open>n\<close>-th post goes through, and that is the
  flag of the event in the output: true after a successful delivery, false after a failed
  one. Without a call for Trigger A the flag is as it was.
\<close>

theorem trigger_A_rule:
  assumes run: "check_and_send_notifications self lib now sink evs = (updated_events, log)"
      and i: "i < length evs"
      and parsed: "strptime lib (date (evs ! i) @ '' '' @ time (evs ! i)) ''%Y-%m-%d %H:%M'' = Some t"
  shows "((\<exists>a\<in>set log. trigger a = TriggerA \<and> slot a = i) \<longleftrightarrow>
            (impact (evs ! i) = ''High'' \<and> \<not> notification_sent_12h (evs ! i)
             \<and> 0 \<le> t - now \<and> t - now \<le> 12 * microseconds_per_hour))
       \<and> (\<forall>n<length log. trigger (log ! n) = TriggerA \<and> slot (log ! n) = i
             \<longrightarrow> delivered (log ! n) = fst (send_telegram_notification self sink n)
                \<and> notification_sent_12h (updated_events ! i) =
                    (telegram_bot_token self \<noteq> [] \<and> telegram_chat_id self \<noteq> [] \<and> sink n))
       \<and> ((\<forall>a\<in>set log. \<not> (trigger a = TriggerA \<and> slot a = i))
             \<longrightarrow> notification_sent_12h (updated_events ! i) = notification_sent_12h (evs ! i))"
proof -
  let ?st = "steps_from self lib now sink evs 0 0"
  from run have upd: "updated_events = map fst ?st" and log: "log = concat (map snd ?st)"
    by (simp_all add: check_and_send_steps)
  from steps_from_nth [OF i, of self lib now sink 0 0] obtain kj kj' where
    step: "notify_event self lib now sink i (evs ! i) kj = (fst (?st ! i), snd (?st ! i), kj')"
    by auto
  have updi: "updated_events ! i = fst (?st ! i)"
    using upd i by (simp add: steps_from_length)
  have mem: "a \<in> set log \<and> slot a = i \<longleftrightarrow> a \<in> set (snd (?st ! i))" for a
    using log_slot_mem [of a self lib now sink evs 0] step_mem_log [OF i, of a self lib now sink 0]
      notify_event_slot [OF step, of a] log by blast
  have "(\<exists>a\<in>set log. trigger a = TriggerA \<and> slot a = i) \<longleftrightarrow>
          (\<exists>a\<in>set (snd (?st ! i)). trigger a = TriggerA)"
    using mem by blast
  also have "\<dots> \<longleftrightarrow> (0 \<le> t - now \<and> t - now \<le> 12 * microseconds_per_hour
       \<and> \<not> notification_sent_12h (evs ! i) \<and> impact (evs ! i) = ''High'')"
    by (rule notify_event_A_iff [OF step parsed])
  finally have first: "(\<exists>a\<in>set log. trigger a = TriggerA \<and> slot a = i) \<longleftrightarrow>
            (impact (evs ! i) = ''High'' \<and> \<not> notification_sent_12h (evs ! i)
             \<and> 0 \<le> t - now \<and> t - now \<le> 12 * microseconds_per_hour)" by blast
  have second: "delivered (log ! n) = fst (send_telegram_notification self sink n)
                \<and> notification_sent_12h (updated_events ! i) =
                    (telegram_bot_token self \<noteq> [] \<and> telegram_chat_id self \<noteq> [] \<and> sink n)"
    if n: "n < length log" and tr: "trigger (log ! n) = TriggerA" and sl: "slot (log ! n) = i" for n
  proof -
    have sent: "delivered (log ! n) =
        (telegram_bot_token self \<noteq> [] \<and> telegram_chat_id self \<noteq> [] \<and> sink n)"
      using steps_posts [of n self lib now sink evs 0 0] n log by simp
    from n have "log ! n \<in> set log" by simp
    with sl mem have "log ! n \<in> set (snd (?st ! i))" by blast
    from notify_event_A_flag [OF step this tr] updi
    have "notification_sent_12h (updated_events ! i) = delivered (log ! n)" by simp
    with sent show ?thesis by (simp add: send_telegram_notification_def)
  qed
  have third: "notification_sent_12h (updated_events ! i) = notification_sent_12h (evs ! i)"
    if "\<forall>a\<in>set log. \<not> (trigger a = TriggerA \<and> slot a = i)"
  proof -
    from that mem have "\<forall>a\<in>set (snd (?st ! i)). trigger a \<noteq> TriggerA" by blast
    from notify_event_no_A_flag [OF step this] updi show ?thesis by simp
  qed
  from first second third show ?thesis by blast
qed

theorem trigger_A_rule_witness:
  "check_and_send_notifications tg_bot table_lib at_1530 (\<lambda>k. k = 0) [cpi, cpi]
     = ([cpi\<lparr>notification_sent_12h := True\<rparr>, cpi],
        [\<lparr>trigger = TriggerA, slot = 0, subject = cpi, delivered = True\<rparr>,
         \<lparr>trigger = TriggerA, slot = 1, subject = cpi, delivered = False\<rparr>])
   \<and> strptime table_lib (date ([cpi, cpi] ! 0) @ '' '' @ time ([cpi, cpi] ! 0)) ''%Y-%m-%d %H:%M''
        = Some 1736544600000000
   \<and> notification_sent_12h ([cpi\<lparr>notification_sent_12h := True\<rparr>, cpi] ! 0)
   \<and> \<not> notification_sent_12h ([cpi\<lparr>notification_sent_12h := True\<rparr>, cpi] ! 1)"
proof -
  have run: "check_and_send_notifications tg_bot table_lib at_1530 (\<lambda>k. k = 0) [cpi, cpi]
     = ([cpi\<lparr>notification_sent_12h := True\<rparr>, cpi],
        [\<lparr>trigger = TriggerA, slot = 0, subject = cpi, delivered = True\<rparr>,
         \<lparr>trigger = TriggerA, slot = 1, subject = cpi, delivered = False\<rparr>])"
    by code_simp
  have parsed: "strptime table_lib (date ([cpi, cpi] ! i) @ '' '' @ time ([cpi, cpi] ! i)) ''%Y-%m-%d %H:%M''
        = Some 1736544600000000" if "i < 2" for i
    using that by (cases i) (simp_all add: cpi_def table_lib_def)
  have creds: "telegram_bot_token tg_bot \<noteq> [] \<and> telegram_chat_id tg_bot \<noteq> []"
    by (simp add: tg_bot_def)
  from trigger_A_rule [OF run _ parsed, of 0] creds
  have sent: "notification_sent_12h ([cpi\<lparr>notification_sent_12h := True\<rparr>, cpi] ! 0)"
    by (auto dest!: spec [of _ 0])
  from trigger_A_rule [OF run _ parsed, of 1] creds
  have unsent: "\<not> notification_sent_12h ([cpi\<lparr>notification_sent_12h := True\<rparr>, cpi] ! 1)"
    by (auto dest!: spec [of _ 1])
  from run parsed [of 0] sent unsent show ?thesis by simp
qed

text \<open>
  C10. In one evaluation run, the event at a position whose date and time do not parse is
  in the output unchanged, with both flags as they were, and the sink is not called for
  it, for neither trigger; the other positions are evaluated as usual.
\<close>

theorem unparsed_event_untouched:
  assumes run: "check_and_send_notifications self lib now sink evs = (updated_events, log)"
      and i: "i < length evs"
      and unparsed: "strptime lib (date (evs ! i) @ '' '' @ time (evs ! i)) ''%Y-%m-%d %H:%M'' = None"
  shows "updated_events ! i = evs ! i \<and> (\<forall>a\<in>set log. slot a \<noteq> i)"
proof -
  let ?st = "steps_from self lib now sink evs 0 0"
  from run have upd: "updated_events = map fst ?st" and log: "log = concat (map snd ?st)"
    by (simp_all add: check_and_send_steps)
  from steps_from_nth [OF i, of self lib now sink 0 0] obtain kj kj' where
    step: "notify_event self lib now sink i (evs ! i) kj = (fst (?st ! i), snd (?st ! i), kj')"
    by auto
  with notify_event_unparsed [OF unparsed, of self now sink i kj]
  have same: "fst (?st ! i) = evs ! i" and none: "snd (?st ! i) = []" by simp_all
  have "slot a \<noteq> i" if "a \<in> set log" for a
    using log_slot_mem [of a self lib now sink evs 0] that log none by auto
  with same upd i show ?thesis by (simp add: steps_from_length)
qed

theorem unparsed_event_untouched_witness:
  "fst (check_and_send_notifications tg_bot table_lib at_1530 (\<lambda>k. True)
          [cpi\<lparr>time := ''All Day'', actual := Some ''0.4%'', status := ''completed''\<rparr>]) ! 0
     = cpi\<lparr>time := ''All Day'', actual := Some ''0.4%'', status := ''completed''\<rparr>
   \<and> filter (\<lambda>a. slot a = 0)
         (snd (check_and_send_notifications tg_bot table_lib at_1530 (\<lambda>k. True)
          [cpi\<lparr>time := ''All Day'', actual := Some ''0.4%'', status := ''completed''\<rparr>])) = []"
  using unparsed_event_untouched
          [of tg_bot table_lib at_1530 "\<lambda>k. True"
              "[cpi\<lparr>time := ''All Day'', actual := Some ''0.4%'', status := ''completed''\<rparr>]"
              "fst (check_and_send_notifications tg_bot table_lib at_1530 (\<lambda>k. True)
                 [cpi\<lparr>time := ''All Day'', actual := Some ''0.4%'', status := ''completed''\<rparr>])"
              "snd (check_and_send_notifications tg_bot table_lib at_1530 (\<lambda>k. True)
                 [cpi\<lparr>time := ''All Day'', actual := Some ''0.4%'', status := ''completed''\<rparr>])"
              0]
  by (simp add: cpi_def table_lib_def filter_empty_conv)

section \<open>Facts about ids, the fetch and main\<close>

text \<open>
  The id is the first sixteen characters of the digest of \<^verbatim>\<open>date_name\<close>; the fields of the
  fetcher object do not enter it.
\<close>

lemma generate_event_id_ignores_self:
  "generate_event_id self lib d n = generate_event_id self' lib d n
   \<and> generate_event_id self lib d n = take 16 (md5_hexdigest lib (d @ ''_'' @ n))"
  by (simp add: generate_event_id_def)

text \<open>
  C6 at the input forecast \<^verbatim>\<open>1.5K\<close>, actual \<^verbatim>\<open>2K\<close>: the forecast handed to \<^verbatim>\<open>float\<close> is
  the text \<^verbatim>\<open>1.5000\<close>, the number 1.5 and not 1500, while the actual is \<^verbatim>\<open>2000\<close>.
\<close>

theorem deviation_operands_decimal_K:
  "numeric_text ''1.5K'' = ''1.5000''
   \<and> numeric_text ''2K'' = ''2000''
   \<and> deviation_operands float_of (cpi\<lparr>forecast := Some ''1.5K'', actual := Some ''2K''\<rparr>)
       = (case float_of ''1.5000'' of None \<Rightarrow> None
          | Some forecast_val \<Rightarrow>
             (case float_of ''2000'' of None \<Rightarrow> None
              | Some actual_val \<Rightarrow> Some (forecast_val, actual_val)))"
proof -
  have f: "numeric_text ''1.5K'' = ''1.5000''" and a: "numeric_text ''2K'' = ''2000''"
    by (simp_all add: numeric_text_def replace_py_def)
  then show ?thesis
    by (simp add: deviation_operands_def cpi_def split: option.splits)
qed

text \<open>
  C9. When the fetch fails or yields no event, \<^verbatim>\<open>main\<close> returns before the merge: the
  file is left as it was, whatever its state, and nothing is sent.
\<close>

theorem main_stops_on_empty_fetch:
  assumes "provider inp = RequestFailed \<or> provider inp = NoData
           \<or> fetch_calendar_events self lib (fetch_now inp) (provider inp) = []"
  shows "main self lib inp file = (file, [])"
proof -
  from assms have "fetch_calendar_events self lib (fetch_now inp) (provider inp) = []"
    by (auto simp: fetch_calendar_events_def)
  then show ?thesis by (simp add: main_def)
qed

theorem main_stops_on_empty_fetch_witness:
  "main tg_bot table_lib
     \<lparr>fetch_now = at_1530, provider = RequestFailed, check_now = at_1530,
      sink_of = (\<lambda>k. True), stamp = ''2025-01-10T07:30:00Z'', write_result = Written\<rparr>
     (Stored \<lparr>updated_at = Some ''2025-01-10T01:00:00Z'', events = [cpi]\<rparr>)
   = (Stored \<lparr>updated_at = Some ''2025-01-10T01:00:00Z'', events = [cpi]\<rparr>, [])"
  using main_stops_on_empty_fetch
          [of "\<lparr>fetch_now = at_1530, provider = RequestFailed, check_now = at_1530,
      sink_of = (\<lambda>k. True), stamp = ''2025-01-10T07:30:00Z'', write_result = Written\<rparr>"
              tg_bot table_lib "Stored \<lparr>updated_at = Some ''2025-01-10T01:00:00Z'', events = [cpi]\<rparr>"]
  by simp










section \<open>Facts about sequences of runs\<close>


lemma fired_Nil: "fired tr k [] = 0"
  by (simp add: fired_def)







lemma notify_event_delivered:
  "notify_event self lib now sink i ev k = (ev', l, k') \<Longrightarrow>
   telegram_bot_token self \<noteq> [] \<Longrightarrow> telegram_chat_id self \<noteq> [] \<Longrightarrow> \<forall>n. sink n \<Longrightarrow>
   a \<in> set l \<Longrightarrow> delivered a"
  by (auto simp: notify_event_def send_telegram_notification_def Let_def
      split: option.splits if_splits prod.splits)






lemma steps_delivered:
  assumes "telegram_bot_token self \<noteq> []" "telegram_chat_id self \<noteq> []" "\<forall>n. sink n"
  shows "\<forall>a\<in>set (concat (map snd (steps_from self lib now sink evs i c))). delivered a"
proof (induction evs arbitrary: i c)
  case Nil
  then show ?case by simp
next
  case (Cons ev rest)
  obtain ev' l c' where step: "notify_event self lib now sink i ev c = (ev', l, c')"
    by (cases "notify_event self lib now sink i ev c") auto
  from notify_event_delivered [OF step assms] Cons.IH [of "Suc i" c'] step
  show ?case by auto
qed


























end
